theory Spec2Isabelle
  imports Main "HOL-Library.Word" "HOL-Library.Sublist"
begin

unbundle bit_operations_syntax

section \<open>Strings and bytes\<close>

text \<open>
  A JavaScript string is a sequence of 16-bit code units; \<open>length\<close>, the regular
  expressions of \<open>app.js\<close> (none has the \<open>u\<close> flag) and \<open>replace\<close> all work on code
  units. A \<open>Uint8Array\<close> and an \<open>ArrayBuffer\<close> are sequences of bytes.
\<close>

type_synonym code_unit = "16 word"
type_synonym js_string = "code_unit list"
type_synonym byte = "8 word"

text \<open>The code units of an ASCII literal of the source.\<close>

definition js :: "string \<Rightarrow> js_string" where
  "js s = map (\<lambda>c. of_nat (of_char c)) s"

text \<open>The decimal digits that a template literal \<open>${n}\<close> renders for a length.\<close>

fun decimal :: "nat \<Rightarrow> js_string" where
  "decimal n =
     (if n < 10 then [of_nat (48 + n)]
      else decimal (n div 10) @ [of_nat (48 + n mod 10)])"

declare decimal.simps [simp del]

section \<open>InputValidator\<close>

text \<open>The character class \<open>[\x00-\x08\x0B\x0C\x0E-\x1F\x7F]\<close>.\<close>

definition dangerousChars :: "code_unit \<Rightarrow> bool" where
  "dangerousChars c \<longleftrightarrow>
     c \<le> 0x08 \<or> c = 0x0B \<or> c = 0x0C \<or> (0x0E \<le> c \<and> c \<le> 0x1F) \<or> c = 0x7F"

text \<open>
  What \<open>String.prototype.trim\<close> removes: the code points of WhiteSpace and
  LineTerminator of ECMAScript (all of them single code units).
\<close>

definition js_whitespace :: "code_unit \<Rightarrow> bool" where
  "js_whitespace c \<longleftrightarrow>
     c = 0x09 \<or> c = 0x0A \<or> c = 0x0B \<or> c = 0x0C \<or> c = 0x0D \<or> c = 0x20 \<or> c = 0xA0
     \<or> c = 0x1680 \<or> (0x2000 \<le> c \<and> c \<le> 0x200A) \<or> c = 0x2028 \<or> c = 0x2029
     \<or> c = 0x202F \<or> c = 0x205F \<or> c = 0x3000 \<or> c = 0xFEFF"

definition trim :: "js_string \<Rightarrow> js_string" where
  "trim s = rev (dropWhile js_whitespace (rev (dropWhile js_whitespace s)))"

text \<open>\<open>s.replace(/c/g, r)\<close> for a single code unit \<open>c\<close>.\<close>

definition replace_all :: "code_unit \<Rightarrow> js_string \<Rightarrow> js_string \<Rightarrow> js_string" where
  "replace_all c r s = concat (map (\<lambda>x. if x = c then r else [x]) s)"

definition sanitize :: "js_string \<Rightarrow> js_string" where
  "sanitize input =
     replace_all 0x27 (js ''&#x27;'')
       (replace_all 0x22 (js ''&quot;'')
         (replace_all 0x3E (js ''&gt;'')
           (replace_all 0x3C (js ''&lt;'')
             (replace_all 0x26 (js ''&amp;'')
               (filter (\<lambda>c. \<not> dangerousChars c) (trim input))))))"

record validation =
  isValid :: bool
  errors :: "js_string list"
  sanitized :: js_string

definition validate :: "js_string \<Rightarrow> validation" where
  "validate input =
     (let errors0 = (if length input = 0 then [js ''Input cannot be empty''] else []);
          errors1 = (if length input > 10000
                     then errors0 @ [js ''Input too long: '' @ decimal (length input)
                                      @ js ''/10000 characters'']
                     else errors0);
          errors2 = (if list_ex dangerousChars input
                     then errors1 @ [js ''Input contains invalid control characters'']
                     else errors1)
      in \<lparr> isValid = (length errors2 = 0), errors = errors2, sanitized = sanitize input \<rparr>)"

text \<open>
  The normalisation as the specification words it, written without the functions
  that embed the source: leading whitespace is dropped from the front, trailing
  whitespace from the back, the control set is spelled out by its numbers, and each of
  the five characters is replaced in turn, in the order given.
\<close>

fun spec_trim_start :: "js_string \<Rightarrow> js_string" where
  "spec_trim_start [] = []"
| "spec_trim_start (c # s) = (if js_whitespace c then spec_trim_start s else c # s)"

fun spec_trim_end :: "js_string \<Rightarrow> js_string" where
  "spec_trim_end [] = []"
| "spec_trim_end (c # s) =
     (let r = spec_trim_end s in if r = [] \<and> js_whitespace c then [] else c # r)"

definition spec_control :: "code_unit \<Rightarrow> bool" where
  "spec_control c \<longleftrightarrow>
     (let n = unat c
      in n \<le> 8 \<or> n = 11 \<or> n = 12 \<or> (14 \<le> n \<and> n \<le> 31) \<or> n = 127)"

fun spec_strip :: "js_string \<Rightarrow> js_string" where
  "spec_strip [] = []"
| "spec_strip (c # s) = (if spec_control c then spec_strip s else c # spec_strip s)"

fun spec_replace :: "code_unit \<Rightarrow> js_string \<Rightarrow> js_string \<Rightarrow> js_string" where
  "spec_replace c r [] = []"
| "spec_replace c r (x # s) =
     (if x = c then r @ spec_replace c r s else x # spec_replace c r s)"

definition html_entities :: "(code_unit \<times> js_string) list" where
  "html_entities =
     [(0x26, js ''&amp;''), (0x3C, js ''&lt;''), (0x3E, js ''&gt;''),
      (0x22, js ''&quot;''), (0x27, js ''&#x27;'')]"

definition spec_normalize :: "js_string \<Rightarrow> js_string" where
  "spec_normalize text =
     foldl (\<lambda>s (c, r). spec_replace c r s)
       (spec_strip (spec_trim_end (spec_trim_start text))) html_entities"

text \<open>Escaping in one pass: every code unit is replaced by its entity, or kept.\<close>

definition escape_unit :: "code_unit \<Rightarrow> js_string" where
  "escape_unit c =
     (if c = 0x26 then js ''&amp;'' else if c = 0x3C then js ''&lt;''
      else if c = 0x3E then js ''&gt;'' else if c = 0x22 then js ''&quot;''
      else if c = 0x27 then js ''&#x27;'' else [c])"

section \<open>Platform functions used by the pipeline\<close>

text \<open>
  \<open>TextEncoder.encode\<close>: the UTF-8 bytes of a string. A surrogate pair is one code
  point of four bytes; a lone surrogate is encoded as U+FFFD.
\<close>

definition high_surrogate :: "code_unit \<Rightarrow> bool" where
  "high_surrogate c \<longleftrightarrow> 0xD800 \<le> c \<and> c \<le> 0xDBFF"

definition low_surrogate :: "code_unit \<Rightarrow> bool" where
  "low_surrogate c \<longleftrightarrow> 0xDC00 \<le> c \<and> c \<le> 0xDFFF"

definition utf8_of_code_point :: "nat \<Rightarrow> byte list" where
  "utf8_of_code_point n =
     (if n < 0x80 then [of_nat n]
      else if n < 0x800 then [of_nat (0xC0 + n div 64), of_nat (0x80 + n mod 64)]
      else if n < 0x10000 then
        [of_nat (0xE0 + n div 4096), of_nat (0x80 + n div 64 mod 64), of_nat (0x80 + n mod 64)]
      else
        [of_nat (0xF0 + n div 262144), of_nat (0x80 + n div 4096 mod 64),
         of_nat (0x80 + n div 64 mod 64), of_nat (0x80 + n mod 64)])"

definition scalar_value :: "code_unit \<Rightarrow> nat" where
  "scalar_value c = (if high_surrogate c \<or> low_surrogate c then 0xFFFD else unat c)"

fun TextEncoder_encode :: "js_string \<Rightarrow> byte list" where
  "TextEncoder_encode [] = []"
| "TextEncoder_encode [c] = utf8_of_code_point (scalar_value c)"
| "TextEncoder_encode (c # d # s) =
     (if high_surrogate c \<and> low_surrogate d
      then utf8_of_code_point (0x10000 + (unat c - 0xD800) * 1024 + (unat d - 0xDC00))
             @ TextEncoder_encode s
      else utf8_of_code_point (scalar_value c) @ TextEncoder_encode (d # s))"

text \<open>A thrown \<open>Error\<close> (or \<open>DOMException\<close>) with its message.\<close>

datatype js_error = Error js_string

text \<open>
  \<open>String.fromCharCode(...bytes)\<close>: one code unit for each byte. The spread passes
  every byte as an argument of one call, and an engine accepts only so many: with more
  than \<open>max_arguments\<close> the call throws a \<open>RangeError\<close>. The number depends on the
  engine and is a parameter.
\<close>

definition fromCharCode :: "nat \<Rightarrow> byte list \<Rightarrow> js_error + js_string" where
  "fromCharCode max_arguments bs =
     (if length bs > max_arguments then Inl (Error (js ''RangeError''))
      else Inr (map ucast bs))"

text \<open>
  \<open>btoa\<close>: base64 (RFC 4648, with \<open>=\<close> padding) of a string of code units up to 0xFF;
  any other code unit throws. Three bytes are 24 bits, read as four 6-bit indices into
  the alphabet \<open>A-Z a-z 0-9 + /\<close>.
\<close>

definition b64_char :: "nat \<Rightarrow> code_unit" where
  "b64_char i =
     of_nat (if i < 26 then 65 + i else if i < 52 then 71 + i
             else if i < 62 then i - 4 else if i = 62 then 43 else 47)"

definition b64_pad :: code_unit where
  "b64_pad = 0x3D"

fun base64_encode :: "byte list \<Rightarrow> js_string" where
  "base64_encode [] = []"
| "base64_encode [a] =
     (let n = unat a * 65536
      in [b64_char (n div 262144), b64_char (n div 4096 mod 64), b64_pad, b64_pad])"
| "base64_encode [a, b] =
     (let n = unat a * 65536 + unat b * 256
      in [b64_char (n div 262144), b64_char (n div 4096 mod 64),
          b64_char (n div 64 mod 64), b64_pad])"
| "base64_encode (a # b # c # bs) =
     (let n = unat a * 65536 + unat b * 256 + unat c
      in [b64_char (n div 262144), b64_char (n div 4096 mod 64),
          b64_char (n div 64 mod 64), b64_char (n mod 64)] @ base64_encode bs)"

definition btoa :: "js_string \<Rightarrow> js_error + js_string" where
  "btoa s =
     (if list_ex (\<lambda>c. c > 0xFF) s then Inl (Error (js ''InvalidCharacterError''))
      else Inr (base64_encode (map ucast s)))"

text \<open>
  The repository has no decoder (decryption is out of scope); the round trip is stated
  against the decoder of RFC 4648: groups of four characters, padding in the last
  group only, any other character refused. In the last group a padded position counts
  as index 0 and the bits it stands for are dropped.
\<close>

definition b64_index :: "code_unit \<Rightarrow> nat option" where
  "b64_index c =
     (let n = unat c
      in if 65 \<le> n \<and> n \<le> 90 then Some (n - 65)
         else if 97 \<le> n \<and> n \<le> 122 then Some (n - 71)
         else if 48 \<le> n \<and> n \<le> 57 then Some (n + 4)
         else if n = 43 then Some 62
         else if n = 47 then Some 63
         else None)"

definition decode_group :: "code_unit \<Rightarrow> code_unit \<Rightarrow> code_unit \<Rightarrow> code_unit \<Rightarrow> nat option" where
  "decode_group c0 c1 c2 c3 =
     (case (b64_index c0, b64_index c1, b64_index c2, b64_index c3) of
        (Some i0, Some i1, Some i2, Some i3) \<Rightarrow>
          Some (i0 * 262144 + i1 * 4096 + i2 * 64 + i3)
      | _ \<Rightarrow> None)"

definition decode_last :: "code_unit \<Rightarrow> code_unit \<Rightarrow> code_unit \<Rightarrow> code_unit \<Rightarrow> byte list option" where
  "decode_last c0 c1 c2 c3 =
     (if c2 = b64_pad \<and> c3 = b64_pad then
        (case decode_group c0 c1 (b64_char 0) (b64_char 0) of
           None \<Rightarrow> None
         | Some m \<Rightarrow> Some [of_nat (m div 65536)])
      else if c3 = b64_pad then
        (case decode_group c0 c1 c2 (b64_char 0) of
           None \<Rightarrow> None
         | Some m \<Rightarrow> Some [of_nat (m div 65536), of_nat (m div 256 mod 256)])
      else
        (case decode_group c0 c1 c2 c3 of
           None \<Rightarrow> None
         | Some m \<Rightarrow> Some [of_nat (m div 65536), of_nat (m div 256 mod 256), of_nat (m mod 256)]))"

fun base64_decode :: "js_string \<Rightarrow> byte list option" where
  "base64_decode [] = Some []"
| "base64_decode [c0, c1, c2, c3] = decode_last c0 c1 c2 c3"
| "base64_decode (c0 # c1 # c2 # c3 # s) =
     (case decode_group c0 c1 c2 c3 of
        None \<Rightarrow> None
      | Some m \<Rightarrow>
          (case base64_decode s of
             None \<Rightarrow> None
           | Some bs \<Rightarrow>
               Some ([of_nat (m div 65536), of_nat (m div 256 mod 256), of_nat (m mod 256)] @ bs)))"
| "base64_decode _ = None"

section \<open>OutputFormatter\<close>

text \<open>
  \<open>combined\<close> is the IV followed by the encrypted data. Whatever is thrown inside the
  \<open>try\<close>, by the spread or by \<open>btoa\<close>, is replaced by the formatter's own error.
\<close>

definition formatOutput :: "nat \<Rightarrow> byte list \<Rightarrow> byte list \<Rightarrow> js_error + js_string" where
  "formatOutput max_arguments iv encryptedData =
     (let combined = iv @ encryptedData
      in case fromCharCode max_arguments combined of
           Inl _ \<Rightarrow> Inl (Error (js ''Failed to format encrypted output''))
         | Inr binary \<Rightarrow>
             (case btoa binary of
                Inl _ \<Rightarrow> Inl (Error (js ''Failed to format encrypted output''))
              | Inr s \<Rightarrow> Inr s))"

section \<open>CryptographicEngine\<close>

text \<open>
  A \<open>CryptoKey\<close> is an opaque, non-extractable handle. The Web Crypto provider is not
  part of the repository: the value a promise settles with (\<open>None\<close> when it rejects)
  and the bytes \<open>getRandomValues\<close> writes (one for each index of the array) are inputs.
\<close>

type_synonym crypto_key = nat

definition generateKey :: "crypto_key option \<Rightarrow> js_error + crypto_key" where
  "generateKey settled =
     (case settled of
        None \<Rightarrow> Inl (Error (js ''Failed to generate cryptographic key''))
      | Some key \<Rightarrow> Inr key)"

definition generateIV :: "(nat \<Rightarrow> byte) \<Rightarrow> byte list" where
  "generateIV random = map random [0..<12]"

definition encryptText :: "byte list option \<Rightarrow> js_error + byte list" where
  "encryptText settled =
     (case settled of
        None \<Rightarrow> Inl (Error (js ''Encryption operation failed''))
      | Some encryptedData \<Rightarrow> Inr encryptedData)"

section \<open>Application state\<close>

text \<open>
  What leaves the application other than through the page: the calls to the crypto
  provider with their arguments, and the invocations of
  \<open>MemoryManager.clearSensitiveData\<close>, in the order they happen.
\<close>

datatype effect =
  GenerateKey
  | GetRandomValues nat
  | Encrypt crypto_key "byte list" "byte list"
  | ClearSensitiveData

text \<open>
  \<open>processEncryption\<close> is an \<open>async\<close> function: it runs up to an \<open>await\<close>, is
  suspended with its live local variables, and resumes when the promise settles.
  \<open>AwaitKey\<close> is the suspension at \<open>await CryptographicEngine.generateKey()\<close>,
  \<open>AwaitEncrypt\<close> the one at \<open>await CryptographicEngine.encryptText(...)\<close> with the
  key, the IV and the plaintext bytes handed to the provider.
\<close>

datatype activation =
  AwaitKey validation
  | AwaitEncrypt crypto_key "byte list" "byte list"

text \<open>
  \<open>AppState\<close>, the elements of the page that the pipeline reads or writes (style
  classes and the character counter are left out), and the runtime: suspended
  activations of \<open>processEncryption\<close>, the pending \<open>setTimeout\<close> callbacks of the
  pipeline (each one is \<open>clearSensitiveData\<close>), the messages of the errors given to
  \<open>console.error\<close>.

  The engine that runs the page is taken to accept, as arguments of one call, the
  bytes that the pipeline can hand to \<open>formatOutput\<close> for a valid input: 12 of the IV,
  at most 6 for each of the 10000 code units of the input, 16 of the tag. How many
  arguments more it accepts is \<open>extra_arguments\<close>.
\<close>

definition pipeline_bytes :: nat where
  "pipeline_bytes = 12 + 6 * 10000 + 16"

record state =
  isProcessing :: bool
  currentKey :: "crypto_key option"
  lastEncryptedData :: "byte list option"
  inputText :: js_string
  outputText :: js_string
  encryptBtn_disabled :: bool
  copyBtn_disabled :: bool
  validationStatus :: js_string
  statusArea_hidden :: bool
  errorMessage_hidden :: bool
  errorText :: js_string
  successMessage_hidden :: bool
  successText :: js_string
  copyStatus :: js_string
  processingIndicator_hidden :: bool
  suspended :: "activation list"
  timers :: nat
  console :: "js_string list"
  effects :: "effect list"
  extra_arguments :: nat

section \<open>UIManager\<close>

definition showError :: "js_string \<Rightarrow> state \<Rightarrow> state" where
  "showError message st =
     st\<lparr>statusArea_hidden := False, errorMessage_hidden := False,
        errorText := message, successMessage_hidden := True\<rparr>"

definition showSuccess :: "js_string \<Rightarrow> state \<Rightarrow> state" where
  "showSuccess message st =
     st\<lparr>statusArea_hidden := False, successMessage_hidden := False,
        successText := message, errorMessage_hidden := True\<rparr>"

definition clearMessages :: "state \<Rightarrow> state" where
  "clearMessages st =
     st\<lparr>statusArea_hidden := True, errorMessage_hidden := True,
        successMessage_hidden := True, copyStatus := []\<rparr>"

text \<open>
  \<open>errors[0]\<close> of an empty array is \<open>undefined\<close>: concatenated to a string it reads
  \<open>undefined\<close>, and \<open>new Error(undefined)\<close> has the empty message.
\<close>

definition validateInput :: "state \<Rightarrow> state" where
  "validateInput st =
     (let input = inputText st; validation = validate input
      in if length input = 0 then
           st\<lparr>validationStatus := [], encryptBtn_disabled := True\<rparr>
         else if isValid validation then
           st\<lparr>validationStatus := 0x2713 # js '' Valid input'', encryptBtn_disabled := False\<rparr>
         else
           st\<lparr>validationStatus :=
                 [0x2717, 0x20] @ (case errors validation of [] \<Rightarrow> js ''undefined'' | r # _ \<Rightarrow> r),
              encryptBtn_disabled := True\<rparr>)"

definition displayResult :: "js_string \<Rightarrow> state \<Rightarrow> state" where
  "displayResult encryptedText st =
     showSuccess (js ''Text encrypted successfully!'')
       (st\<lparr>outputText := encryptedText, copyBtn_disabled := False\<rparr>)"

definition showProcessing :: "state \<Rightarrow> state" where
  "showProcessing st =
     clearMessages (st\<lparr>processingIndicator_hidden := False, encryptBtn_disabled := True\<rparr>)"

definition hideProcessing :: "state \<Rightarrow> state" where
  "hideProcessing st = validateInput (st\<lparr>processingIndicator_hidden := True\<rparr>)"

section \<open>MemoryManager\<close>

text \<open>The two references are dropped; the hint \<open>window.gc\<close> is left out.\<close>

definition clearSensitiveData :: "state \<Rightarrow> state" where
  "clearSensitiveData st =
     st\<lparr>currentKey := None, lastEncryptedData := None,
        effects := effects st @ [ClearSensitiveData]\<rparr>"

definition clearAll :: "state \<Rightarrow> state" where
  "clearAll st =
     showSuccess (js ''All data cleared'')
       (clearSensitiveData
         (clearMessages
           (validateInput (st\<lparr>inputText := [], outputText := [], copyBtn_disabled := True\<rparr>))))"

section \<open>EncryptionController\<close>

text \<open>
  The \<open>catch\<close> block: the error goes to the console, the page gets one fixed message.
  The \<open>finally\<close> block: the flag is reset, the indicator hidden (which validates the
  input box again), and \<open>clearSensitiveData\<close> is scheduled with \<open>setTimeout\<close>.
  The advisory timing check (\<open>performance.now\<close>, \<open>console.warn\<close>) changes nothing
  that the page or the provider sees and is left out.
\<close>

definition catch_block :: "js_error \<Rightarrow> state \<Rightarrow> state" where
  "catch_block error st =
     (case error of Error message \<Rightarrow>
        showError (js ''Encryption failed. Please try again.'')
          (st\<lparr>console := console st @ [message]\<rparr>))"

definition finally_block :: "state \<Rightarrow> state" where
  "finally_block st =
     (let st1 = hideProcessing (st\<lparr>isProcessing := False\<rparr>)
      in st1\<lparr>timers := Suc (timers st1)\<rparr>)"

text \<open>From the call to the first \<open>await\<close>: the guard, validation, the request for a key.\<close>

definition processEncryption_begin :: "state \<Rightarrow> state \<times> activation option" where
  "processEncryption_begin st =
     (if isProcessing st then (st, None)
      else
        let st1 = showProcessing (st\<lparr>isProcessing := True\<rparr>);
            input = inputText st1;
            validation = validate input
        in if \<not> isValid validation then
             (finally_block
                (catch_block (Error (case errors validation of [] \<Rightarrow> [] | r # _ \<Rightarrow> r)) st1),
              None)
           else
             (st1\<lparr>effects := effects st1 @ [GenerateKey]\<rparr>, Some (AwaitKey validation)))"

text \<open>From the key to the second \<open>await\<close>: the key is stored, the IV drawn, encryption requested.\<close>

definition processEncryption_key ::
    "validation \<Rightarrow> crypto_key option \<Rightarrow> (nat \<Rightarrow> byte) \<Rightarrow> state \<Rightarrow> state \<times> activation option" where
  "processEncryption_key validation settled random st =
     (case generateKey settled of
        Inl error \<Rightarrow> (finally_block (catch_block error st), None)
      | Inr key \<Rightarrow>
          let st1 = st\<lparr>currentKey := Some key\<rparr>;
              iv = generateIV random;
              data = TextEncoder_encode (sanitized validation)
          in (st1\<lparr>effects := effects st1 @ [GetRandomValues 12, Encrypt key iv data]\<rparr>,
              Some (AwaitEncrypt key iv data)))"

text \<open>
  From the encrypted data to the return: formatting, display, \<open>finally\<close>. The
  formatter runs on the page's engine, with the arguments that engine accepts.
\<close>

definition processEncryption_encrypted :: "byte list \<Rightarrow> byte list option \<Rightarrow> state \<Rightarrow> state" where
  "processEncryption_encrypted iv settled st =
     (case encryptText settled of
        Inl error \<Rightarrow> finally_block (catch_block error st)
      | Inr encryptedData \<Rightarrow>
          let st1 = st\<lparr>lastEncryptedData := Some encryptedData\<rparr>
          in case formatOutput (pipeline_bytes + extra_arguments st1) iv encryptedData of
               Inl error \<Rightarrow> finally_block (catch_block error st1)
             | Inr formattedOutput \<Rightarrow> finally_block (displayResult formattedOutput st1))"

text \<open>
  One run with nothing else happening in between: the promises settle with what the
  provider answers.
\<close>

record crypto_provider =
  subtle_generateKey :: "crypto_key option"
  getRandomValues :: "nat \<Rightarrow> byte"
  subtle_encrypt :: "crypto_key \<Rightarrow> byte list \<Rightarrow> byte list \<Rightarrow> byte list option"

definition processEncryption :: "crypto_provider \<Rightarrow> state \<Rightarrow> state" where
  "processEncryption provider st =
     (case processEncryption_begin st of
        (st1, Some (AwaitKey validation)) \<Rightarrow>
          (case processEncryption_key validation
                  (subtle_generateKey provider) (getRandomValues provider) st1 of
             (st2, Some (AwaitEncrypt key iv data)) \<Rightarrow>
               processEncryption_encrypted iv (subtle_encrypt provider key iv data) st2
           | (st2, _) \<Rightarrow> st2)
      | (st1, _) \<Rightarrow> st1)"

section \<open>The page as a transition system\<close>

text \<open>
  What can happen to the page: \<open>processEncryption\<close> is called, a promise of a suspended
  activation settles, a timer fires, the user edits the input box, the clear button is
  clicked. A settled promise resumes the activation that awaits it and no other.
\<close>

datatype event =
  Invoke
  | KeySettled nat "crypto_key option" "nat \<Rightarrow> byte"
  | EncryptSettled nat "byte list option"
  | TimerFired
  | InputEdited js_string
  | ClearClicked

definition remove_nth :: "nat \<Rightarrow> 'a list \<Rightarrow> 'a list" where
  "remove_nth i xs = take i xs @ drop (Suc i) xs"

definition suspend :: "state \<times> activation option \<Rightarrow> state" where
  "suspend r =
     (case r of
        (st, None) \<Rightarrow> st
      | (st, Some a) \<Rightarrow> st\<lparr>suspended := suspended st @ [a]\<rparr>)"

fun step :: "event \<Rightarrow> state \<Rightarrow> state" where
  "step Invoke st = suspend (processEncryption_begin st)"
| "step (KeySettled i settled random) st =
     (if i < length (suspended st) then
        (case suspended st ! i of
           AwaitKey validation \<Rightarrow>
             suspend (processEncryption_key validation settled random
                        (st\<lparr>suspended := remove_nth i (suspended st)\<rparr>))
         | AwaitEncrypt key iv data \<Rightarrow> st)
      else st)"
| "step (EncryptSettled i settled) st =
     (if i < length (suspended st) then
        (case suspended st ! i of
           AwaitKey validation \<Rightarrow> st
         | AwaitEncrypt key iv data \<Rightarrow>
             processEncryption_encrypted iv settled
               (st\<lparr>suspended := remove_nth i (suspended st)\<rparr>))
      else st)"
| "step TimerFired st =
     (if timers st = 0 then st else clearSensitiveData (st\<lparr>timers := timers st - 1\<rparr>))"
| "step (InputEdited text) st = clearMessages (validateInput (st\<lparr>inputText := text\<rparr>))"
| "step ClearClicked st = clearAll st"

text \<open>
  The page once loaded: \<open>AppState\<close> as declared, no activation, no timer; the elements
  as the document has them.
\<close>

definition initial :: "state \<Rightarrow> bool" where
  "initial st \<longleftrightarrow>
     \<not> isProcessing st \<and> currentKey st = None \<and> lastEncryptedData st = None
     \<and> suspended st = [] \<and> timers st = 0"

inductive reachable :: "state \<Rightarrow> bool" where
  reachable_initial: "initial st \<Longrightarrow> reachable st"
| reachable_step: "reachable st \<Longrightarrow> reachable (step e st)"

text \<open>
  Single flight: at most one activation is suspended, and the flag is set exactly while
  one is.
\<close>

definition single_flight :: "state \<Rightarrow> bool" where
  "single_flight st \<longleftrightarrow>
     length (suspended st) \<le> 1 \<and> (isProcessing st \<longleftrightarrow> suspended st \<noteq> [])"

text \<open>
  A loaded page with a given text in the input box, after \<open>UIManager.initialize\<close>, on
  an engine that accepts 65536 arguments.
\<close>

definition loaded :: "js_string \<Rightarrow> state" where
  "loaded text =
     validateInput
       \<lparr>isProcessing = False, currentKey = None, lastEncryptedData = None,
        inputText = text, outputText = [], encryptBtn_disabled = True,
        copyBtn_disabled = True, validationStatus = [], statusArea_hidden = True,
        errorMessage_hidden = True, errorText = [], successMessage_hidden = True,
        successText = [], copyStatus = [], processingIndicator_hidden = True,
        suspended = [], timers = 0, console = [], effects = [],
        extra_arguments = 5508\<rparr>"

text \<open>
  A stand-in for the provider with the lengths of AES-GCM (the data followed by a
  16-byte tag), to run the pipeline on concrete inputs.
\<close>

definition stub_provider :: crypto_provider where
  "stub_provider =
     \<lparr>subtle_generateKey = Some 1, getRandomValues = (\<lambda>i. of_nat i),
      subtle_encrypt = (\<lambda>key iv data. Some (data @ replicate 16 0))\<rparr>"

section \<open>Properties of the validator\<close>

lemma js_Nil [simp]: "js [] = []"
  by (simp add: js_def)

lemma js_Cons [simp]: "js (c # s) = of_nat (of_char c) # js s"
  by (simp add: js_def)

lemma length_js [simp]: "length (js s) = length s"
  by (simp add: js_def)

lemma js_append: "js (a @ b) = js a @ js b"
  by (simp add: js_def)

lemma replace_all_Nil [simp]: "replace_all c r [] = []"
  by (simp add: replace_all_def)

lemma replace_all_Cons [simp]:
  "replace_all c r (x # s) = (if x = c then r else [x]) @ replace_all c r s"
  by (simp add: replace_all_def)

lemma replace_all_append [simp]:
  "replace_all c r (s @ t) = replace_all c r s @ replace_all c r t"
  by (simp add: replace_all_def)

text \<open>
  The five passes of \<open>sanitize\<close> are one pass: no entity inserted by an earlier pass
  holds a character that a later pass replaces, because \<open>&\<close> is replaced first.
\<close>

lemma escape_chain:
  "replace_all 0x27 (js ''&#x27;'')
     (replace_all 0x22 (js ''&quot;'')
       (replace_all 0x3E (js ''&gt;'')
         (replace_all 0x3C (js ''&lt;'')
           (replace_all 0x26 (js ''&amp;'') s)))) = concat (map escape_unit s)"
  by (induction s) (simp_all add: escape_unit_def)

lemma sanitize_one_pass:
  "sanitize input = concat (map escape_unit (filter (\<lambda>c. \<not> dangerousChars c) (trim input)))"
  unfolding sanitize_def by (rule escape_chain)

lemma length_escape_unit: "length (escape_unit c) \<le> 6"
  by (simp add: escape_unit_def)

lemma length_concat_escape: "length (concat (map escape_unit s)) \<le> 6 * length s"
proof (induction s)
  case Nil
  show ?case by simp
next
  case (Cons c s)
  have "length (escape_unit c) \<le> 6" by (rule length_escape_unit)
  with Cons show ?case by simp
qed

lemma length_trim: "length (trim s) \<le> length s"
proof -
  have "length (trim s) = length (dropWhile js_whitespace (rev (dropWhile js_whitespace s)))"
    by (simp add: trim_def)
  also have "\<dots> \<le> length (rev (dropWhile js_whitespace s))"
    by (rule length_dropWhile_le)
  also have "\<dots> \<le> length s"
    by (simp add: length_dropWhile_le)
  finally show ?thesis .
qed

lemma length_sanitize: "length (sanitize input) \<le> 6 * length input"
proof -
  let ?kept = "filter (\<lambda>c. \<not> dangerousChars c) (trim input)"
  have "length ?kept \<le> length (trim input)" by (rule length_filter_le)
  also have "\<dots> \<le> length input" by (rule length_trim)
  finally have "6 * length ?kept \<le> 6 * length input" by simp
  moreover have "length (sanitize input) \<le> 6 * length ?kept"
    unfolding sanitize_one_pass by (rule length_concat_escape)
  ultimately show ?thesis by linarith
qed

text \<open>
  The functions of the source compute what the specification's words describe:
  \<open>dropWhile\<close> from both ends is trimming, the regular expression's class is the
  control set, and a global \<open>replace\<close> replaces every occurrence.
\<close>

lemma spec_trim_start_eq: "spec_trim_start s = dropWhile js_whitespace s"
  by (induction s) simp_all

lemma spec_trim_end_eq: "spec_trim_end s = rev (dropWhile js_whitespace (rev s))"
proof (induction s)
  case Nil
  show ?case by simp
next
  case (Cons c s)
  show ?case
  proof (cases "\<forall>x \<in> set s. js_whitespace x")
    case True
    then have "dropWhile js_whitespace (rev s) = []" by simp
    with Cons True show ?thesis by (simp add: dropWhile_append)
  next
    case False
    then have "dropWhile js_whitespace (rev s) \<noteq> []" by simp
    with Cons False show ?thesis by (simp add: dropWhile_append)
  qed
qed

lemma spec_trim_eq: "spec_trim_end (spec_trim_start s) = trim s"
  by (simp add: spec_trim_start_eq spec_trim_end_eq trim_def)

lemma spec_control_eq: "spec_control c = dangerousChars c"
  by (simp add: spec_control_def dangerousChars_def Let_def word_le_nat_alt word_unat_eq_iff)

lemma spec_strip_eq: "spec_strip s = filter (\<lambda>c. \<not> dangerousChars c) s"
  by (induction s) (simp_all add: spec_control_eq)

lemma spec_replace_eq: "spec_replace c r s = replace_all c r s"
  by (induction s) simp_all

lemma spec_normalize_eq: "spec_normalize input = sanitize input"
  by (simp add: spec_normalize_def sanitize_def html_entities_def spec_trim_eq spec_strip_eq
      spec_replace_eq)

lemma validate_sanitized [simp]: "sanitized (validate input) = sanitize input"
  by (simp add: validate_def Let_def)

lemma validate_isValid:
  "isValid (validate input) \<longleftrightarrow>
     length input \<noteq> 0 \<and> length input \<le> 10000 \<and> \<not> list_ex dangerousChars input"
  by (simp add: validate_def Let_def)

lemma dangerousChars_unat:
  "dangerousChars c \<longleftrightarrow> unat c \<in> {0..8} \<union> {0x0B, 0x0C} \<union> {0x0E..0x1F} \<union> {0x7F}"
  by (simp add: dangerousChars_def word_le_nat_alt word_unat_eq_iff) auto

lemma trim_replicate: "\<not> js_whitespace c \<Longrightarrow> trim (replicate n c) = replicate n c"
  by (cases n) (simp_all add: trim_def replicate_append_same [symmetric] del: replicate_Suc)

section \<open>Properties of the encoder\<close>

lemma b64_index_char: "i < 64 \<Longrightarrow> b64_index (b64_char i) = Some i"
  unfolding b64_index_def b64_char_def Let_def
  by (simp add: unat_of_nat) arith

lemma b64_char_not_pad: "i < 64 \<Longrightarrow> b64_char i \<noteq> b64_pad"
  unfolding b64_char_def b64_pad_def
  by (simp add: word_unat_eq_iff unat_of_nat) arith

lemma decode_group_chars:
  assumes "i0 < 64" "i1 < 64" "i2 < 64" "i3 < 64"
  shows "decode_group (b64_char i0) (b64_char i1) (b64_char i2) (b64_char i3) =
         Some (i0 * 262144 + i1 * 4096 + i2 * 64 + i3)"
  using assms by (simp add: decode_group_def b64_index_char)

lemma sextets:
  fixes n :: nat
  shows "n div 262144 * 262144 + n div 4096 mod 64 * 4096 + n div 64 mod 64 * 64 + n mod 64 = n"
proof -
  have a: "n = n div 64 * 64 + n mod 64" by simp
  have "n div 64 = n div 64 div 64 * 64 + n div 64 mod 64" by simp
  then have b: "n div 64 = n div 4096 * 64 + n div 64 mod 64"
    by (simp add: div_mult2_eq [symmetric])
  have "n div 4096 = n div 4096 div 64 * 64 + n div 4096 mod 64" by simp
  then have c: "n div 4096 = n div 262144 * 64 + n div 4096 mod 64"
    by (simp add: div_mult2_eq [symmetric])
  show ?thesis using a b c by linarith
qed

lemma octet_high:
  fixes a b c :: nat
  assumes "b < 256" "c < 256"
  shows "(a * 65536 + b * 256 + c) div 65536 = a"
proof -
  have "b * 256 + c < 65536" using assms by linarith
  then show ?thesis by (simp add: add.assoc)
qed

lemma octet_mid:
  fixes a b c :: nat
  assumes "b < 256" "c < 256"
  shows "(a * 65536 + b * 256 + c) div 256 mod 256 = b"
proof -
  have "(a * 65536 + b * 256 + c) div 256 = a * 256 + b"
    using assms by simp
  then show ?thesis using assms by simp
qed

lemma octet_low:
  fixes a b c :: nat
  assumes "c < 256"
  shows "(a * 65536 + b * 256 + c) mod 256 = c"
proof -
  have "a * 65536 + b * 256 + c = (a * 256 + b) * 256 + c" by simp
  then have "(a * 65536 + b * 256 + c) mod 256 = ((a * 256 + b) * 256 + c) mod 256"
    by (rule arg_cong)
  also have "\<dots> = c mod 256" by (rule mod_mult_self3)
  also have "\<dots> = c" using assms by (rule mod_less)
  finally show ?thesis .
qed

lemma unat_byte_less: "unat (a :: byte) < 256"
  using unsigned_less [of a] by simp

lemma pad_bits_two: "(k * 65536 + j * 256) mod 64 = (0::nat)"
proof -
  have "k * 65536 + j * 256 = (k * 1024 + j * 4) * 64" by simp
  then show ?thesis by (metis mod_mult_self2_is_0)
qed

lemma pad_bits_one: "(k * 65536) div 64 mod 64 = (0::nat)"
proof -
  have "k * 65536 div 64 = k * 16 * 64" by simp
  then show ?thesis by (metis mod_mult_self2_is_0)
qed

lemma decode_encode_group:
  fixes a b c :: byte
  defines "n \<equiv> unat a * 65536 + unat b * 256 + unat c"
  shows "decode_group (b64_char (n div 262144)) (b64_char (n div 4096 mod 64))
           (b64_char (n div 64 mod 64)) (b64_char (n mod 64)) = Some n"
proof -
  have "n div 262144 < 64"
    unfolding n_def using unat_byte_less [of a] unat_byte_less [of b] unat_byte_less [of c]
    by simp
  then show ?thesis
    by (simp add: decode_group_chars sextets)
qed

lemma bytes_of_group:
  fixes a b c :: byte
  defines "n \<equiv> unat a * 65536 + unat b * 256 + unat c"
  shows "of_nat (n div 65536) = a" "of_nat (n div 256 mod 256) = b" "of_nat (n mod 256) = c"
  unfolding n_def
  by (simp_all add: octet_high octet_mid octet_low unat_byte_less)

lemma base64_encode_eq_Nil: "base64_encode bs = [] \<longleftrightarrow> bs = []"
  by (induction bs rule: base64_encode.induct) (simp_all add: Let_def)

lemma decode_one:
  fixes a :: byte
  defines "n \<equiv> unat a * 65536"
  shows "decode_last (b64_char (n div 262144)) (b64_char (n div 4096 mod 64)) b64_pad b64_pad
         = Some [a]"
proof -
  have z: "n div 64 mod 64 = 0" "n mod 64 = 0"
    unfolding n_def using pad_bits_one [of "unat a"] pad_bits_two [of "unat a" 0] by simp_all
  have "decode_group (b64_char (n div 262144)) (b64_char (n div 4096 mod 64))
          (b64_char 0) (b64_char 0) = Some n"
    using decode_encode_group [of a 0 0] z by (simp add: n_def)
  moreover have "of_nat (n div 65536) = a"
    using bytes_of_group(1) [of a 0 0] by (simp add: n_def)
  ultimately show ?thesis by (simp add: decode_last_def)
qed


lemma decode_two:
  fixes a b :: byte
  defines "n \<equiv> unat a * 65536 + unat b * 256"
  shows "decode_last (b64_char (n div 262144)) (b64_char (n div 4096 mod 64))
           (b64_char (n div 64 mod 64)) b64_pad = Some [a, b]"
proof -
  have z: "n mod 64 = 0"
    unfolding n_def by (rule pad_bits_two)
  have "decode_group (b64_char (n div 262144)) (b64_char (n div 4096 mod 64))
          (b64_char (n div 64 mod 64)) (b64_char 0) = Some n"
    using decode_encode_group [of a b 0] z by (simp add: n_def)
  moreover have "of_nat (n div 65536) = a" "of_nat (n div 256 mod 256) = b"
    using bytes_of_group(1,2) [of a b 0] by (simp_all add: n_def)
  moreover have "b64_char (n div 64 mod 64) \<noteq> b64_pad"
    by (rule b64_char_not_pad) simp
  ultimately show ?thesis by (simp add: decode_last_def)
qed

lemma decode_three:
  fixes a b c :: byte
  defines "n \<equiv> unat a * 65536 + unat b * 256 + unat c"
  shows "decode_last (b64_char (n div 262144)) (b64_char (n div 4096 mod 64))
           (b64_char (n div 64 mod 64)) (b64_char (n mod 64)) = Some [a, b, c]"
proof -
  have "b64_char (n div 64 mod 64) \<noteq> b64_pad" "b64_char (n mod 64) \<noteq> b64_pad"
    by (rule b64_char_not_pad, simp)+
  then show ?thesis
    using decode_encode_group [of a b c] bytes_of_group [of a b c]
    by (simp add: decode_last_def n_def)
qed


lemma base64_decode_encode: "base64_decode (base64_encode bs) = Some bs"
proof (induction bs rule: base64_encode.induct)
  case 1
  show ?case by simp
next
  case (2 a)
  show ?case
    unfolding base64_encode.simps Let_def base64_decode.simps by (rule decode_one)
next
  case (3 a b)
  show ?case
    unfolding base64_encode.simps Let_def base64_decode.simps by (rule decode_two)
next
  case (4 a b c bs)
  show ?case
  proof (cases bs)
    case Nil
    show ?thesis
      unfolding Nil base64_encode.simps Let_def append_Cons append_Nil base64_decode.simps
      by (rule decode_three)
  next
    case (Cons x xs)
    then have "base64_encode bs \<noteq> []" by (simp add: base64_encode_eq_Nil)
    then obtain y ys where e: "base64_encode bs = y # ys"
      by (cases "base64_encode bs") auto
    have ih: "base64_decode (y # ys) = Some bs" using 4 e by simp
    show ?thesis
      unfolding base64_encode.simps Let_def append_Cons append_Nil e base64_decode.simps
        decode_encode_group ih option.case bytes_of_group
      by (rule refl)
  qed
qed


lemma ucast_byte_le: "(ucast (b :: byte) :: code_unit) \<le> 0xFF"
proof -
  have "unat b < 2 ^ 16" using unat_byte_less [of b] by simp
  then have "unat (ucast b :: code_unit) = unat b"
    by (simp add: unsigned_ucast_eq take_bit_nat_eq_self)
  then show ?thesis using unat_byte_less [of b] by (simp add: word_le_nat_alt)
qed

lemma ucast_byte_roundtrip: "(ucast (ucast (b :: byte) :: code_unit) :: byte) = b"
  by (simp add: ucast_up_ucast_id is_up)

lemma btoa_bytes: "btoa (map ucast (bs :: byte list)) = Inr (base64_encode bs)"
proof -
  have "\<not> list_ex (\<lambda>c. c > 0xFF) (map ucast bs :: js_string)"
    using ucast_byte_le by (auto simp: list_ex_iff not_less)
  moreover have "map ucast (map ucast bs :: js_string) = bs"
    by (simp add: ucast_byte_roundtrip comp_def)
  ultimately show ?thesis by (simp add: btoa_def)
qed

lemma formatOutput_within:
  assumes "length iv + length enc \<le> max_arguments"
  shows "formatOutput max_arguments iv enc = Inr (base64_encode (iv @ enc))"
  using assms by (simp add: formatOutput_def fromCharCode_def btoa_bytes del: map_append)

lemma formatOutput_beyond:
  assumes "max_arguments < length iv + length enc"
  shows "formatOutput max_arguments iv enc
         = Inl (Error (js ''Failed to format encrypted output''))"
  using assms by (simp add: formatOutput_def fromCharCode_def)

section \<open>The bytes of a sanitized text\<close>

text \<open>
  A code unit below 0x80 is one byte of UTF-8, any other at most three (a surrogate
  pair is two code units and four bytes). An entity is ASCII, so the sanitized text of
  an input has at most six bytes for each code unit of the input.
\<close>

lemma length_utf8_of_code_point:
  "n < 0x80 \<Longrightarrow> length (utf8_of_code_point n) = 1"
  "n < 0x10000 \<Longrightarrow> length (utf8_of_code_point n) \<le> 3"
  "length (utf8_of_code_point n) \<le> 4"
  by (simp_all add: utf8_of_code_point_def)

lemma scalar_value_less: "scalar_value c < 0x10000"
  using unsigned_less [of c, where 'a = nat] by (simp add: scalar_value_def)

lemma scalar_value_ascii: "c < 0x80 \<Longrightarrow> scalar_value c < 0x80"
  by (simp add: scalar_value_def high_surrogate_def low_surrogate_def word_less_nat_alt
      word_le_nat_alt)

lemma length_unit_bytes:
  "length (utf8_of_code_point (scalar_value c)) \<le> (if c < 0x80 then 1 else 3)"
  using length_utf8_of_code_point(1) [OF scalar_value_ascii, of c]
    length_utf8_of_code_point(2) [OF scalar_value_less, of c]
  by simp

lemma surrogate_not_ascii: "high_surrogate c \<Longrightarrow> \<not> c < 0x80"
  by (simp add: high_surrogate_def word_less_nat_alt word_le_nat_alt)

lemma length_TextEncoder_encode:
  "length (TextEncoder_encode s) \<le> (\<Sum>c\<leftarrow>s. if c < 0x80 then 1 else 3)"
proof (induction s rule: TextEncoder_encode.induct)
  case 1
  show ?case by simp
next
  case (2 c)
  show ?case using length_unit_bytes [of c] by simp
next
  case (3 c d s)
  show ?case
  proof (cases "high_surrogate c \<and> low_surrogate d")
    case True
    then have "TextEncoder_encode (c # d # s)
        = utf8_of_code_point (0x10000 + (unat c - 0xD800) * 1024 + (unat d - 0xDC00))
            @ TextEncoder_encode s"
      by simp
    moreover have "length (utf8_of_code_point
        (0x10000 + (unat c - 0xD800) * 1024 + (unat d - 0xDC00))) \<le> 4"
      by (rule length_utf8_of_code_point(3))
    moreover have "\<not> c < 0x80" using True by (simp add: surrogate_not_ascii)
    moreover have "length (TextEncoder_encode s) \<le> (\<Sum>c\<leftarrow>s. if c < 0x80 then 1 else 3)"
      using 3(1) True by simp
    ultimately show ?thesis by simp
  next
    case False
    then have "TextEncoder_encode (c # d # s)
        = utf8_of_code_point (scalar_value c) @ TextEncoder_encode (d # s)"
      by auto
    moreover have "length (TextEncoder_encode (d # s))
        \<le> (\<Sum>c\<leftarrow>d # s. if c < 0x80 then 1 else 3)"
      using 3(2) False by simp
    ultimately show ?thesis using length_unit_bytes [of c] by simp
  qed
qed

lemma escape_unit_weight: "(\<Sum>x\<leftarrow>escape_unit c. if x < 0x80 then 1 else 3) \<le> (6 :: nat)"
  by (simp add: escape_unit_def)

lemma escaped_weight:
  "(\<Sum>x\<leftarrow>concat (map escape_unit s). if x < 0x80 then 1 else 3) \<le> 6 * length s"
proof (induction s)
  case Nil
  show ?case by simp
next
  case (Cons c s)
  with escape_unit_weight [of c] show ?case by simp
qed

lemma length_sanitized_bytes: "length (TextEncoder_encode (sanitize input)) \<le> 6 * length input"
proof -
  let ?kept = "filter (\<lambda>c. \<not> dangerousChars c) (trim input)"
  have "length (TextEncoder_encode (sanitize input))
      \<le> (\<Sum>x\<leftarrow>sanitize input. if x < 0x80 then 1 else 3)"
    by (rule length_TextEncoder_encode)
  also have "\<dots> \<le> 6 * length ?kept"
    unfolding sanitize_one_pass by (rule escaped_weight)
  also have "\<dots> \<le> 6 * length input"
  proof -
    have "length ?kept \<le> length (trim input)" by (rule length_filter_le)
    also have "\<dots> \<le> length input" by (rule length_trim)
    finally show ?thesis by simp
  qed
  finally show ?thesis .
qed

lemma valid_bytes_within:
  assumes "isValid (validate input)"
  shows "12 + (length (TextEncoder_encode (sanitize input)) + 16) \<le> pipeline_bytes + extra"
proof -
  have "length input \<le> 10000" using assms by (simp add: validate_isValid)
  with length_sanitized_bytes [of input] show ?thesis by (simp add: pipeline_bytes_def)
qed

section \<open>Fields after the blocks of the pipeline\<close>

lemmas ui_defs = showError_def showSuccess_def clearMessages_def validateInput_def
  displayResult_def showProcessing_def hideProcessing_def

lemma finally_block_fields [simp]:
  "isProcessing (finally_block st) = False"
  "timers (finally_block st) = Suc (timers st)"
  "currentKey (finally_block st) = currentKey st"
  "lastEncryptedData (finally_block st) = lastEncryptedData st"
  "effects (finally_block st) = effects st"
  "console (finally_block st) = console st"
  "suspended (finally_block st) = suspended st"
  "inputText (finally_block st) = inputText st"
  "outputText (finally_block st) = outputText st"
  "errorText (finally_block st) = errorText st"
  "errorMessage_hidden (finally_block st) = errorMessage_hidden st"
  "successMessage_hidden (finally_block st) = successMessage_hidden st"
  "processingIndicator_hidden (finally_block st) = True"
  by (simp_all add: finally_block_def hideProcessing_def validateInput_def Let_def)

lemma finally_block_validationStatus:
  "validationStatus (finally_block st) = validationStatus (validateInput st)"
  by (simp add: finally_block_def hideProcessing_def validateInput_def Let_def)

lemma catch_block_fields [simp]:
  "isProcessing (catch_block e st) = isProcessing st"
  "timers (catch_block e st) = timers st"
  "currentKey (catch_block e st) = currentKey st"
  "lastEncryptedData (catch_block e st) = lastEncryptedData st"
  "effects (catch_block e st) = effects st"
  "suspended (catch_block e st) = suspended st"
  "inputText (catch_block e st) = inputText st"
  "outputText (catch_block e st) = outputText st"
  "errorText (catch_block e st) = js ''Encryption failed. Please try again.''"
  "errorMessage_hidden (catch_block e st) = False"
  "successMessage_hidden (catch_block e st) = True"
  by (cases e; simp add: catch_block_def showError_def)+

lemma catch_block_console [simp]:
  "console (catch_block (Error message) st) = console st @ [message]"
  by (simp add: catch_block_def showError_def)

lemma showProcessing_fields [simp]:
  "isProcessing (showProcessing st) = isProcessing st"
  "timers (showProcessing st) = timers st"
  "currentKey (showProcessing st) = currentKey st"
  "lastEncryptedData (showProcessing st) = lastEncryptedData st"
  "effects (showProcessing st) = effects st"
  "console (showProcessing st) = console st"
  "suspended (showProcessing st) = suspended st"
  "inputText (showProcessing st) = inputText st"
  "outputText (showProcessing st) = outputText st"
  "errorText (showProcessing st) = errorText st"
  "extra_arguments (showProcessing st) = extra_arguments st"
  by (simp_all add: showProcessing_def clearMessages_def)

lemma displayResult_fields [simp]:
  "isProcessing (displayResult s st) = isProcessing st"
  "timers (displayResult s st) = timers st"
  "currentKey (displayResult s st) = currentKey st"
  "lastEncryptedData (displayResult s st) = lastEncryptedData st"
  "effects (displayResult s st) = effects st"
  "console (displayResult s st) = console st"
  "suspended (displayResult s st) = suspended st"
  "inputText (displayResult s st) = inputText st"
  "outputText (displayResult s st) = s"
  "errorText (displayResult s st) = errorText st"
  "errorMessage_hidden (displayResult s st) = True"
  "successMessage_hidden (displayResult s st) = False"
  "successText (displayResult s st) = js ''Text encrypted successfully!''"
  by (simp_all add: displayResult_def showSuccess_def)


section \<open>The paths of one run\<close>

lemma length_generateIV [simp]: "length (generateIV random) = 12"
  by (simp add: generateIV_def)

lemma begin_rejected: "isProcessing st \<Longrightarrow> processEncryption_begin st = (st, None)"
  by (simp add: processEncryption_begin_def)

lemma begin_invalid:
  assumes "\<not> isProcessing st" "\<not> isValid (validate (inputText st))"
  shows "processEncryption_begin st =
    (finally_block
       (catch_block (Error (case errors (validate (inputText st)) of [] \<Rightarrow> [] | r # _ \<Rightarrow> r))
          (showProcessing (st\<lparr>isProcessing := True\<rparr>))), None)"
  using assms by (simp add: processEncryption_begin_def Let_def)

lemma begin_valid:
  assumes "\<not> isProcessing st" "isValid (validate (inputText st))"
  shows "processEncryption_begin st =
    ((showProcessing (st\<lparr>isProcessing := True\<rparr>))\<lparr>effects := effects st @ [GenerateKey]\<rparr>,
     Some (AwaitKey (validate (inputText st))))"
  using assms by (simp add: processEncryption_begin_def Let_def)

lemma key_rejected:
  "processEncryption_key validation None random st =
     (finally_block (catch_block (Error (js ''Failed to generate cryptographic key'')) st), None)"
  by (simp add: processEncryption_key_def generateKey_def)

lemma key_resolved:
  "processEncryption_key validation (Some key) random st =
     (st\<lparr>currentKey := Some key,
         effects := effects st @ [GetRandomValues 12,
           Encrypt key (generateIV random) (TextEncoder_encode (sanitized validation))]\<rparr>,
      Some (AwaitEncrypt key (generateIV random) (TextEncoder_encode (sanitized validation))))"
  by (simp add: processEncryption_key_def generateKey_def Let_def)

lemma encrypted_rejected:
  "processEncryption_encrypted iv None st =
     finally_block (catch_block (Error (js ''Encryption operation failed'')) st)"
  by (simp add: processEncryption_encrypted_def encryptText_def)

lemma encrypted_resolved:
  assumes "length iv + length encryptedData \<le> pipeline_bytes + extra_arguments st"
  shows "processEncryption_encrypted iv (Some encryptedData) st =
     finally_block (displayResult (base64_encode (iv @ encryptedData))
       (st\<lparr>lastEncryptedData := Some encryptedData\<rparr>))"
  using assms
  by (simp add: processEncryption_encrypted_def encryptText_def formatOutput_within Let_def)

lemma encrypted_overflow:
  assumes "pipeline_bytes + extra_arguments st < length iv + length encryptedData"
  shows "processEncryption_encrypted iv (Some encryptedData) st =
     finally_block (catch_block (Error (js ''Failed to format encrypted output''))
       (st\<lparr>lastEncryptedData := Some encryptedData\<rparr>))"
  using assms
  by (simp add: processEncryption_encrypted_def encryptText_def formatOutput_beyond Let_def)

lemma run_rejected: "isProcessing st \<Longrightarrow> processEncryption provider st = st"
  by (simp add: processEncryption_def begin_rejected)

lemma run_invalid:
  assumes "\<not> isProcessing st" "\<not> isValid (validate (inputText st))"
  shows "processEncryption provider st =
    finally_block
      (catch_block (Error (case errors (validate (inputText st)) of [] \<Rightarrow> [] | r # _ \<Rightarrow> r))
         (showProcessing (st\<lparr>isProcessing := True\<rparr>)))"
  using assms by (simp add: processEncryption_def begin_invalid)

lemma run_key_failed:
  assumes "\<not> isProcessing st" "isValid (validate (inputText st))"
    and "subtle_generateKey provider = None"
  shows "processEncryption provider st =
    finally_block
      (catch_block (Error (js ''Failed to generate cryptographic key''))
         ((showProcessing (st\<lparr>isProcessing := True\<rparr>))\<lparr>effects := effects st @ [GenerateKey]\<rparr>))"
  using assms by (simp add: processEncryption_def begin_valid key_rejected)

lemma run_encrypt_failed:
  assumes "\<not> isProcessing st" "isValid (validate (inputText st))"
    and "subtle_generateKey provider = Some key"
    and "subtle_encrypt provider key (generateIV (getRandomValues provider))
           (TextEncoder_encode (sanitize (inputText st))) = None"
  shows "processEncryption provider st =
    finally_block
      (catch_block (Error (js ''Encryption operation failed''))
         ((showProcessing (st\<lparr>isProcessing := True\<rparr>))
            \<lparr>effects := effects st @ [GenerateKey], currentKey := Some key,
             effects := effects st @ [GenerateKey] @ [GetRandomValues 12,
               Encrypt key (generateIV (getRandomValues provider))
                 (TextEncoder_encode (sanitize (inputText st)))]\<rparr>))"
  using assms by (simp add: processEncryption_def begin_valid key_resolved encrypted_rejected)

lemma run_succeeded:
  assumes "\<not> isProcessing st" "isValid (validate (inputText st))"
    and "subtle_generateKey provider = Some key"
    and "subtle_encrypt provider key (generateIV (getRandomValues provider))
           (TextEncoder_encode (sanitize (inputText st))) = Some encryptedData"
    and "12 + length encryptedData \<le> pipeline_bytes + extra_arguments st"
  shows "processEncryption provider st =
    finally_block
      (displayResult (base64_encode (generateIV (getRandomValues provider) @ encryptedData))
         ((showProcessing (st\<lparr>isProcessing := True\<rparr>))
            \<lparr>effects := effects st @ [GenerateKey], currentKey := Some key,
             effects := effects st @ [GenerateKey] @ [GetRandomValues 12,
               Encrypt key (generateIV (getRandomValues provider))
                 (TextEncoder_encode (sanitize (inputText st)))],
             lastEncryptedData := Some encryptedData\<rparr>))"
  using assms by (simp add: processEncryption_def begin_valid key_resolved encrypted_resolved)

lemma run_format_failed:
  assumes "\<not> isProcessing st" "isValid (validate (inputText st))"
    and "subtle_generateKey provider = Some key"
    and "subtle_encrypt provider key (generateIV (getRandomValues provider))
           (TextEncoder_encode (sanitize (inputText st))) = Some encryptedData"
    and "pipeline_bytes + extra_arguments st < 12 + length encryptedData"
  shows "processEncryption provider st =
    finally_block
      (catch_block (Error (js ''Failed to format encrypted output''))
         ((showProcessing (st\<lparr>isProcessing := True\<rparr>))
            \<lparr>effects := effects st @ [GenerateKey], currentKey := Some key,
             effects := effects st @ [GenerateKey] @ [GetRandomValues 12,
               Encrypt key (generateIV (getRandomValues provider))
                 (TextEncoder_encode (sanitize (inputText st)))],
             lastEncryptedData := Some encryptedData\<rparr>))"
  using assms by (simp add: processEncryption_def begin_valid key_resolved encrypted_overflow)

section \<open>Claims about the validator and the encoder\<close>

lemma decimal_10001: "decimal 10001 = js ''10001''"
  by (simp add: decimal.simps)

lemma empty_reason: "sublist (js ''empty'') (js ''Input cannot be empty'')"
proof -
  have "js ''Input cannot be empty'' = js ''Input cannot be '' @ js ''empty''"
    by simp
  then show ?thesis by (simp only: sublist_append_leftI)
qed

lemma too_long_reason:
  "sublist (js ''10001/10000'')
     (js ''Input too long: '' @ decimal 10001 @ js ''/10000 characters'')"
proof -
  have "js ''Input too long: '' @ decimal 10001 @ js ''/10000 characters''
        = js ''Input too long: '' @ js ''10001/10000'' @ js '' characters''"
    unfolding decimal_10001 by simp
  then show ?thesis by (simp only: sublist_appendI)
qed

lemma validate_errors_empty:
  "length input = 0 \<Longrightarrow> js ''Input cannot be empty'' \<in> set (errors (validate input))"
  by (simp add: validate_def Let_def)

lemma validate_errors_too_long:
  "length input > 10000 \<Longrightarrow>
     js ''Input too long: '' @ decimal (length input) @ js ''/10000 characters''
       \<in> set (errors (validate input))"
  by (simp add: validate_def Let_def del: js_Cons)

text \<open>
  C3. \<open>validate\<close> accepts a text exactly when its length is between 1 and 10000 and it
  has no code unit in 0x00-0x08, 0x0B, 0x0C, 0x0E-0x1F, 0x7F. For the empty text the
  error list holds a reason that mentions \<open>empty\<close>; for a text of length 10001 it holds
  a reason that cites \<open>10001/10000\<close>.
\<close>

theorem validate_accepts_iff:
  "(isValid (validate input) \<longleftrightarrow>
      1 \<le> length input \<and> length input \<le> 10000
      \<and> (\<forall>c \<in> set input. unat c \<notin> {0..8} \<union> {0x0B, 0x0C} \<union> {0x0E..0x1F} \<union> {0x7F}))
   \<and> (length input = 0 \<longrightarrow> (\<exists>r \<in> set (errors (validate input)). sublist (js ''empty'') r))
   \<and> (length input = 10001 \<longrightarrow>
        (\<exists>r \<in> set (errors (validate input)). sublist (js ''10001/10000'') r))"
proof (intro conjI impI)
  show "isValid (validate input) \<longleftrightarrow>
      1 \<le> length input \<and> length input \<le> 10000
      \<and> (\<forall>c \<in> set input. unat c \<notin> {0..8} \<union> {0x0B, 0x0C} \<union> {0x0E..0x1F} \<union> {0x7F})"
    unfolding validate_isValid list_ex_iff dangerousChars_unat by (auto simp: Suc_le_eq)
next
  assume "length input = 0"
  then show "\<exists>r \<in> set (errors (validate input)). sublist (js ''empty'') r"
    using validate_errors_empty empty_reason by blast
next
  assume l: "length input = 10001"
  then have "js ''Input too long: '' @ decimal 10001 @ js ''/10000 characters''
       \<in> set (errors (validate input))"
    using validate_errors_too_long [of input] by simp
  then show "\<exists>r \<in> set (errors (validate input)). sublist (js ''10001/10000'') r"
    using too_long_reason by blast
qed

theorem validate_accepts_iff_witness:
  "isValid (validate (js ''Hello''))
   \<and> (\<exists>r \<in> set (errors (validate [])). sublist (js ''empty'') r)
   \<and> (\<exists>r \<in> set (errors (validate (replicate 10001 0x61))). sublist (js ''10001/10000'') r)"
  using validate_accepts_iff [of "js ''Hello''"] validate_accepts_iff [of "[]"]
    validate_accepts_iff [of "replicate 10001 0x61"]
  by simp

text \<open>
  C4. Whatever the input, valid or not, the \<open>sanitized\<close> field of \<open>validate\<close> is the
  text with leading and trailing whitespace trimmed, then without the code units
  0x00-0x08, 0x0B, 0x0C, 0x0E-0x1F, 0x7F, then with \<open>&\<close>, \<open><\<close>, \<open>>\<close>, the double quote
  and the apostrophe replaced by their entities, in that order. The script tag of the
  specification's second scenario comes out with its angle brackets escaped. An input
  that starts with a space and a tab, holds two control characters and all five
  special characters, and ends with a line feed and a space is not valid, and its
  sanitized text is still computed: trimmed, stripped and escaped. An entity in the
  input has its ampersand escaped, once.
\<close>

theorem sanitized_is_normalized:
  "sanitized (validate input) = spec_normalize input
   \<and> sanitized (validate (js ''<script>alert(1)</script>''))
       = js ''&lt;script&gt;alert(1)&lt;/script&gt;''
   \<and> \<not> isValid (validate
         [0x20, 0x09, 0x61, 0x00, 0x07, 0x26, 0x22, 0x27, 0x3C, 0x3E, 0x20, 0x62, 0x0A, 0x20])
   \<and> sanitized (validate
         [0x20, 0x09, 0x61, 0x00, 0x07, 0x26, 0x22, 0x27, 0x3C, 0x3E, 0x20, 0x62, 0x0A, 0x20])
       = js ''a&amp;&quot;&#x27;&lt;&gt; b''
   \<and> sanitized (validate (js ''&lt;'')) = js ''&amp;lt;''"
proof (intro conjI)
  show "sanitized (validate input) = spec_normalize input"
    by (simp add: spec_normalize_eq)
  show "sanitized (validate (js ''<script>alert(1)</script>''))
       = js ''&lt;script&gt;alert(1)&lt;/script&gt;''"
    by (simp add: sanitize_def trim_def js_whitespace_def dangerousChars_def)
  show "\<not> isValid (validate
         [0x20, 0x09, 0x61, 0x00, 0x07, 0x26, 0x22, 0x27, 0x3C, 0x3E, 0x20, 0x62, 0x0A, 0x20])"
    by (simp add: validate_isValid dangerousChars_def)
  show "sanitized (validate
         [0x20, 0x09, 0x61, 0x00, 0x07, 0x26, 0x22, 0x27, 0x3C, 0x3E, 0x20, 0x62, 0x0A, 0x20])
       = js ''a&amp;&quot;&#x27;&lt;&gt; b''"
    by (simp add: sanitize_def trim_def js_whitespace_def dangerousChars_def)
  show "sanitized (validate (js ''&lt;'')) = js ''&amp;lt;''"
    by (simp add: sanitize_def trim_def js_whitespace_def dangerousChars_def)
qed

text \<open>
  C8, as stated, fails: on an engine that accepts 65536 arguments in one call, the
  encoder given a 12-byte IV, a ciphertext of 150000 bytes and a 16-byte tag throws
  \<open>Failed to format encrypted output\<close> and produces no string to decode.
\<close>

theorem formatOutput_counterexample:
  "length (replicate 12 (0 :: byte)) = 12
   \<and> length (replicate 16 (0 :: byte)) = 16
   \<and> formatOutput 65536 (replicate 12 0) (replicate 150000 0 @ replicate 16 0)
       = Inl (Error (js ''Failed to format encrypted output''))
   \<and> formatOutput 65536 (replicate 12 0) (replicate 150000 0 @ replicate 16 0)
       \<noteq> Inr (base64_encode (replicate 12 0 @ replicate 150000 0 @ replicate 16 0))"
  by (simp add: formatOutput_beyond del: js_Cons)

text \<open>
  C8, amended. For every nonce, ciphertext and tag whose bytes together are no more
  than the arguments the engine accepts in one call, \<open>formatOutput\<close> returns a string,
  and decoding that string as base64 gives back the nonce, the ciphertext and the tag,
  byte for byte and in that order. With more bytes than that it throws
  \<open>Failed to format encrypted output\<close>.
\<close>

theorem formatOutput_roundtrip_within_limit:
  "(length nonce + length ciphertext + length tag \<le> max_arguments \<longrightarrow>
      (\<exists>s. formatOutput max_arguments nonce (ciphertext @ tag) = Inr s
           \<and> base64_decode s = Some (nonce @ ciphertext @ tag)))
   \<and> (max_arguments < length nonce + length ciphertext + length tag \<longrightarrow>
        formatOutput max_arguments nonce (ciphertext @ tag)
          = Inl (Error (js ''Failed to format encrypted output'')))"
  by (simp add: formatOutput_within formatOutput_beyond base64_decode_encode del: js_Cons)

theorem formatOutput_roundtrip_within_limit_witness:
  "(\<exists>s. formatOutput 65536 (replicate 12 7) ([1, 2, 3] @ replicate 16 9) = Inr s
        \<and> base64_decode s = Some (replicate 12 7 @ [1, 2, 3] @ replicate 16 9))
   \<and> formatOutput 40 (replicate 12 7) (replicate 13 1 @ replicate 16 9)
       = Inl (Error (js ''Failed to format encrypted output''))"
  using formatOutput_roundtrip_within_limit [of "replicate 12 7" "[1, 2, 3]" "replicate 16 9" 65536]
    formatOutput_roundtrip_within_limit [of "replicate 12 7" "replicate 13 1" "replicate 16 9" 40]
  by (simp del: js_Cons)

section \<open>Concrete pages and the stand-in provider\<close>

lemma loaded_fields [simp]:
  "isProcessing (loaded t) = False"
  "currentKey (loaded t) = None"
  "lastEncryptedData (loaded t) = None"
  "inputText (loaded t) = t"
  "outputText (loaded t) = []"
  "suspended (loaded t) = []"
  "timers (loaded t) = 0"
  "console (loaded t) = []"
  "effects (loaded t) = []"
  by (simp_all add: loaded_def validateInput_def Let_def)

lemma initial_loaded: "initial (loaded t)"
  by (simp add: initial_def)

lemma stub_provider_fields [simp]:
  "subtle_generateKey stub_provider = Some 1"
  "subtle_encrypt stub_provider key iv data = Some (data @ replicate 16 0)"
  by (simp_all add: stub_provider_def)

lemma invalid_errors: "\<not> isValid (validate input) \<Longrightarrow> errors (validate input) \<noteq> []"
  by (simp add: validate_def Let_def split: if_splits)

lemma first_error:
  "\<not> isValid (validate input) \<Longrightarrow>
     (case errors (validate input) of [] \<Rightarrow> d | r # _ \<Rightarrow> r) = hd (errors (validate input))"
  using invalid_errors [of input] by (cases "errors (validate input)") simp_all

lemma too_long_a:
  "\<not> isValid (validate (replicate 10001 0x61))"
  "hd (errors (validate (replicate 10001 0x61))) = js ''Input too long: 10001/10000 characters''"
  by (simp_all add: validate_def Let_def decimal_10001 dangerousChars_def list_ex_iff)

section \<open>Claims about the pipeline\<close>

text \<open>
  C1, as stated, fails: for an input of 10001 letters the first validation reason is
  \<open>Input too long: 10001/10000 characters\<close>, and the message given to \<open>showError\<close> is
  the generic one.
\<close>

theorem failure_message_counterexample:
  "\<not> isProcessing (loaded (replicate 10001 0x61))
   \<and> \<not> isValid (validate (inputText (loaded (replicate 10001 0x61))))
   \<and> hd (errors (validate (inputText (loaded (replicate 10001 0x61)))))
       = js ''Input too long: 10001/10000 characters''
   \<and> errorText (processEncryption stub_provider (loaded (replicate 10001 0x61)))
       = js ''Encryption failed. Please try again.''
   \<and> errorText (processEncryption stub_provider (loaded (replicate 10001 0x61)))
       \<noteq> hd (errors (validate (inputText (loaded (replicate 10001 0x61)))))"
  by (simp add: run_invalid too_long_a)

text \<open>
  C1, amended. For every run whose input fails validation, the message given to
  \<open>showError\<close> is the fixed \<open>Encryption failed. Please try again.\<close>, as for every
  other failure. The first validation reason goes to \<open>console.error\<close>; when the input
  is not empty it is also shown, after a cross, in the validation status line, which
  \<open>hideProcessing\<close> refreshes in the \<open>finally\<close> block.
\<close>

theorem validation_failure_message:
  assumes "\<not> isProcessing st" and "\<not> isValid (validate (inputText st))"
  shows "errorText (processEncryption provider st) = js ''Encryption failed. Please try again.''
    \<and> \<not> errorMessage_hidden (processEncryption provider st)
    \<and> console (processEncryption provider st)
        = console st @ [hd (errors (validate (inputText st)))]
    \<and> (inputText st \<noteq> [] \<longrightarrow>
         validationStatus (processEncryption provider st)
           = [0x2717, 0x20] @ hd (errors (validate (inputText st))))"
proof -
  let ?st' = "processEncryption provider st"
  have run: "?st' =
    finally_block (catch_block (Error (hd (errors (validate (inputText st)))))
       (showProcessing (st\<lparr>isProcessing := True\<rparr>)))"
    using run_invalid [OF assms] first_error [OF assms(2)] by simp
  have "validationStatus ?st' = validationStatus (validateInput st)" 
    unfolding run finally_block_validationStatus
    by (simp add: validateInput_def catch_block_def showError_def showProcessing_def
        clearMessages_def Let_def)
  moreover have "inputText st \<noteq> [] \<longrightarrow> validationStatus (validateInput st)
      = [0x2717, 0x20] @ hd (errors (validate (inputText st)))"
    using assms(2) first_error [OF assms(2)] by (simp add: validateInput_def Let_def)
  ultimately show ?thesis
    unfolding run by simp
qed

theorem validation_failure_message_witness:
  "errorText (processEncryption stub_provider (loaded (replicate 10001 0x61)))
     = js ''Encryption failed. Please try again.''
   \<and> console (processEncryption stub_provider (loaded (replicate 10001 0x61)))
     = [js ''Input too long: 10001/10000 characters'']
   \<and> validationStatus (processEncryption stub_provider (loaded (replicate 10001 0x61)))
     = [0x2717, 0x20] @ js ''Input too long: 10001/10000 characters''"
  using validation_failure_message [of "loaded (replicate 10001 0x61)" stub_provider]
  by (simp add: too_long_a)


lemma clearSensitiveData_fields [simp]:
  "isProcessing (clearSensitiveData st) = isProcessing st"
  "timers (clearSensitiveData st) = timers st"
  "currentKey (clearSensitiveData st) = None"
  "lastEncryptedData (clearSensitiveData st) = None"
  "effects (clearSensitiveData st) = effects st @ [ClearSensitiveData]"
  "suspended (clearSensitiveData st) = suspended st"
  by (simp_all add: clearSensitiveData_def)

lemma run_schedules_release:
  assumes "\<not> isProcessing st"
  shows "timers (processEncryption provider st) = Suc (timers st)
    \<and> filter (\<lambda>e. e = ClearSensitiveData) (effects (processEncryption provider st))
        = filter (\<lambda>e. e = ClearSensitiveData) (effects st)
    \<and> \<not> isProcessing (processEncryption provider st)"
proof (cases "isValid (validate (inputText st))")
  case False
  with assms show ?thesis by (simp add: run_invalid)
next
  case valid: True
  show ?thesis
  proof (cases "subtle_generateKey provider")
    case None
    with assms valid show ?thesis by (simp add: run_key_failed)
  next
    case (Some key)
    show ?thesis
    proof (cases "subtle_encrypt provider key (generateIV (getRandomValues provider))
           (TextEncoder_encode (sanitize (inputText st)))")
      case None
      with assms valid Some show ?thesis by (simp add: run_encrypt_failed)
    next
      case enc: (Some encryptedData)
      show ?thesis
      proof (cases "12 + length encryptedData \<le> pipeline_bytes + extra_arguments st")
        case True
        with assms valid Some enc show ?thesis by (simp add: run_succeeded)
      next
        case False
        with assms valid Some enc show ?thesis by (simp add: run_format_failed)
      qed
    qed
  qed
qed

text \<open>
  C2, as stated, fails: when a successful run returns, \<open>clearSensitiveData\<close> has not
  been invoked; the key and the encrypted data are still referenced, and the release
  is a pending timer.
\<close>

theorem release_counterexample:
  "\<not> isProcessing (loaded (js ''Hello, World!''))
   \<and> currentKey (processEncryption stub_provider (loaded (js ''Hello, World!''))) = Some 1
   \<and> lastEncryptedData (processEncryption stub_provider (loaded (js ''Hello, World!''))) \<noteq> None
   \<and> ClearSensitiveData \<notin> set (effects (processEncryption stub_provider (loaded (js ''Hello, World!''))))
   \<and> timers (processEncryption stub_provider (loaded (js ''Hello, World!''))) = 1"
proof -
  have v: "isValid (validate (inputText (loaded (js ''Hello, World!''))))"
    by (simp add: validate_isValid dangerousChars_def)
  have n: "\<not> isProcessing (loaded (js ''Hello, World!''))" by simp
  have w: "12 + length (TextEncoder_encode (sanitize (inputText (loaded (js ''Hello, World!''))))
             @ replicate 16 (0 :: byte))
           \<le> pipeline_bytes + extra_arguments (loaded (js ''Hello, World!''))"
    using valid_bytes_within [OF v] by simp
  show ?thesis
    unfolding run_succeeded [OF n v stub_provider_fields(1) stub_provider_fields(2) w]
    by simp
qed

text \<open>
  C2, amended. On every exit path of a run that passed the guard (success, validation
  failure, crypto failure), the run schedules exactly one \<open>clearSensitiveData\<close> with
  \<open>setTimeout\<close> and does not invoke it before returning; when that timer fires, the
  key reference and the encrypted-data reference are cleared.
\<close>

theorem release_is_scheduled:
  assumes "\<not> isProcessing st"
  shows "timers (processEncryption provider st) = Suc (timers st)
    \<and> filter (\<lambda>e. e = ClearSensitiveData) (effects (processEncryption provider st))
        = filter (\<lambda>e. e = ClearSensitiveData) (effects st)
    \<and> currentKey (step TimerFired (processEncryption provider st)) = None
    \<and> lastEncryptedData (step TimerFired (processEncryption provider st)) = None
    \<and> effects (step TimerFired (processEncryption provider st))
        = effects (processEncryption provider st) @ [ClearSensitiveData]"
  using run_schedules_release [OF assms, of provider] by simp

theorem release_is_scheduled_witness:
  "timers (processEncryption stub_provider (loaded (js ''Hello, World!''))) = Suc 0
   \<and> currentKey (step TimerFired (processEncryption stub_provider (loaded (js ''Hello, World!''))))
       = None
   \<and> lastEncryptedData
        (step TimerFired (processEncryption stub_provider (loaded (js ''Hello, World!'')))) = None"
  using release_is_scheduled [of "loaded (js ''Hello, World!'')" stub_provider]
  by simp


lemma suspend_None [simp]: "suspend (st, None) = st"
  by (simp add: suspend_def)

lemma suspend_Some [simp]: "suspend (st, Some a) = st\<lparr>suspended := suspended st @ [a]\<rparr>"
  by (simp add: suspend_def)

text \<open>
  C7. For every input that fails validation, the run ends in its first segment, before
  any \<open>await\<close>: no call to key generation, to the random source or to encryption is
  made, no key or encrypted data is stored, nothing is written to the output, the error
  message is shown and the flag is reset.
\<close>

theorem invalid_input_short_circuits:
  assumes "\<not> isProcessing st" and "\<not> isValid (validate (inputText st))"
  shows "snd (processEncryption_begin st) = None
    \<and> step Invoke st = processEncryption provider st
    \<and> effects (processEncryption provider st) = effects st
    \<and> currentKey (processEncryption provider st) = currentKey st
    \<and> lastEncryptedData (processEncryption provider st) = lastEncryptedData st
    \<and> suspended (processEncryption provider st) = suspended st
    \<and> \<not> isProcessing (processEncryption provider st)
    \<and> \<not> errorMessage_hidden (processEncryption provider st)
    \<and> outputText (processEncryption provider st) = outputText st"
  using assms by (simp add: run_invalid begin_invalid)

theorem invalid_input_short_circuits_witness:
  "effects (processEncryption stub_provider (loaded (replicate 10001 0x61))) = []
   \<and> currentKey (processEncryption stub_provider (loaded (replicate 10001 0x61))) = None
   \<and> \<not> errorMessage_hidden (processEncryption stub_provider (loaded (replicate 10001 0x61)))"
  using invalid_input_short_circuits [of "loaded (replicate 10001 0x61)" stub_provider]
  by (simp add: too_long_a)

lemma hello_world:
  "isValid (validate (js ''Hello, World!''))"
  "sanitize (js ''Hello, World!'') = js ''Hello, World!''"
  "length (TextEncoder_encode (js ''Hello, World!'')) = 13"
  by (simp_all add: validate_isValid dangerousChars_def sanitize_def trim_def js_whitespace_def
      utf8_of_code_point_def scalar_value_def high_surrogate_def low_surrogate_def)

text \<open>
  C5. For every run that succeeds, with a provider that returns the ciphertext and a
  16-byte tag (as many bytes as the plaintext, plus 16), the output decodes as base64 to
  the 12-byte nonce, followed by what the provider returned: the nonce in positions
  0 to 11, the tag in the last 16, and 12 + plaintext bytes + 16 in all, where the
  plaintext is the UTF-8 encoding of the sanitized text. For \<open>Hello, World!\<close> that is 41.
\<close>

theorem envelope_layout:
  assumes "\<not> isProcessing st" and "isValid (validate (inputText st))"
    and "subtle_generateKey provider = Some key"
    and "subtle_encrypt provider key (generateIV (getRandomValues provider))
           (TextEncoder_encode (sanitize (inputText st))) = Some encryptedData"
    and "length encryptedData = length (TextEncoder_encode (sanitize (inputText st))) + 16"
  shows "\<exists>bytes. base64_decode (outputText (processEncryption provider st)) = Some bytes
    \<and> bytes = generateIV (getRandomValues provider) @ encryptedData
    \<and> take 12 bytes = generateIV (getRandomValues provider)
    \<and> drop (length bytes - 16) bytes
        = drop (length (TextEncoder_encode (sanitize (inputText st)))) encryptedData
    \<and> length (drop (length bytes - 16) bytes) = 16
    \<and> length bytes = 12 + length (TextEncoder_encode (sanitize (inputText st))) + 16
    \<and> (inputText st = js ''Hello, World!'' \<longrightarrow> length bytes = 41)"
proof -
  let ?iv = "generateIV (getRandomValues provider)"
  have within: "12 + length encryptedData \<le> pipeline_bytes + extra_arguments st"
    using valid_bytes_within [OF assms(2)] assms(5) by simp
  have out: "outputText (processEncryption provider st) = base64_encode (?iv @ encryptedData)"
    unfolding run_succeeded [OF assms(1-4) within] by simp
  have hello: "inputText st = js ''Hello, World!'' \<longrightarrow> length (?iv @ encryptedData) = 41"
    using assms(5) hello_world by auto
  show ?thesis
    unfolding out base64_decode_encode
    using assms(5) hello by simp
qed

theorem envelope_layout_witness:
  "\<exists>bytes. base64_decode (outputText (processEncryption stub_provider (loaded (js ''Hello, World!''))))
       = Some bytes
     \<and> take 12 bytes = generateIV (getRandomValues stub_provider)
     \<and> length bytes = 41"
  using envelope_layout [of "loaded (js ''Hello, World!'')" stub_provider 1
      "TextEncoder_encode (sanitize (js ''Hello, World!'')) @ replicate 16 0"]
  by (simp add: hello_world del: js_Cons)


lemma whitespace_not_dangerous:
  assumes "js_whitespace c" and "c \<noteq> 0x0B" and "c \<noteq> 0x0C"
  shows "\<not> dangerousChars c"
  using assms unfolding js_whitespace_def dangerousChars_def
  by (auto simp: word_le_nat_alt)

lemma trim_whitespace:
  assumes "\<forall>c \<in> set s. js_whitespace c"
  shows "trim s = []"
proof -
  have none: "dropWhile js_whitespace s = []"
    using assms by simp
  show ?thesis unfolding trim_def none by simp
qed

lemma sanitize_whitespace: "\<forall>c \<in> set s. js_whitespace c \<Longrightarrow> sanitize s = []"
  by (simp add: sanitize_def trim_whitespace)

text \<open>
  C9, as stated, fails: a vertical tab is whitespace for \<open>trim\<close> and a control
  character for \<open>validate\<close>, and 10001 spaces are too long; neither input is valid.
\<close>

theorem whitespace_only_counterexample:
  "list_all js_whitespace [0x0B]
   \<and> \<not> isValid (validate [0x0B])
   \<and> list_all js_whitespace (replicate 10001 0x20)
   \<and> \<not> isValid (validate (replicate 10001 0x20))"
  by (simp add: validate_isValid js_whitespace_def dangerousChars_def list_all_iff)

text \<open>
  C9, amended. For every input of 1 to 10000 code units, all of them whitespace other
  than vertical tab and form feed, \<open>validate\<close> accepts the input and the sanitized text
  is empty; a run that succeeds hands the empty plaintext to the provider, and with a
  16-byte answer (the tag alone) the output decodes to exactly 28 bytes.
\<close>

theorem whitespace_only_input:
  assumes "\<not> isProcessing st"
    and "1 \<le> length (inputText st)" and "length (inputText st) \<le> 10000"
    and "\<forall>c \<in> set (inputText st). js_whitespace c \<and> c \<noteq> 0x0B \<and> c \<noteq> 0x0C"
    and "subtle_generateKey provider = Some key"
    and "subtle_encrypt provider key (generateIV (getRandomValues provider)) [] = Some encryptedData"
    and "length encryptedData = 16"
  shows "isValid (validate (inputText st))
    \<and> sanitized (validate (inputText st)) = []
    \<and> Encrypt key (generateIV (getRandomValues provider)) []
        \<in> set (effects (processEncryption provider st))
    \<and> (\<exists>bytes. base64_decode (outputText (processEncryption provider st)) = Some bytes
          \<and> length bytes = 28)"
proof -
  have valid: "isValid (validate (inputText st))"
    using assms(2-4) whitespace_not_dangerous
    by (auto simp: validate_isValid list_ex_iff)
  have empty: "sanitize (inputText st) = []"
    using assms(4) by (simp add: sanitize_whitespace)
  have enc: "subtle_encrypt provider key (generateIV (getRandomValues provider))
           (TextEncoder_encode (sanitize (inputText st))) = Some encryptedData"
    using assms(6) by (simp add: empty)
  have within: "12 + length encryptedData \<le> pipeline_bytes + extra_arguments st"
    using assms(7) by (simp add: pipeline_bytes_def)
  show ?thesis
    unfolding run_succeeded [OF assms(1) valid assms(5) enc within]
    using valid assms(7) by (simp add: empty base64_decode_encode)
qed

theorem whitespace_only_input_witness:
  "isValid (validate (inputText (loaded [0x20])))
   \<and> sanitized (validate (inputText (loaded [0x20]))) = []
   \<and> (\<exists>bytes. base64_decode (outputText (processEncryption stub_provider (loaded [0x20])))
         = Some bytes \<and> length bytes = 28)"
  using whitespace_only_input [of "loaded [0x20]" stub_provider 1 "replicate 16 0"]
  by (simp add: js_whitespace_def)

lemma length_concat_replicate: "length (concat (replicate n xs)) = n * length xs"
  by (induction n) simp_all

lemma sanitize_apostrophes: "sanitize (replicate n 0x27) = concat (replicate n (js ''&#x27;''))"
proof -
  have "trim (replicate n (0x27 :: code_unit)) = replicate n 0x27"
    by (rule trim_replicate) (simp add: js_whitespace_def)
  then show ?thesis
    by (simp add: sanitize_one_pass dangerousChars_def escape_unit_def map_replicate)
qed

lemma apostrophes:
  "isValid (validate (replicate 10000 0x27))"
  "length (sanitize (replicate 10000 0x27)) = 60000"
  by (simp_all add: validate_isValid list_ex_iff dangerousChars_def sanitize_apostrophes
      length_concat_replicate)

text \<open>
  C10. The limit of 10000 is checked on the raw input: a valid input has at most 10000
  code units and its sanitized text at most 60000; 10000 apostrophes are valid and
  their sanitized text has exactly 60000; and the plaintext handed to the provider is
  the encoding of the sanitized text.
\<close>

theorem limit_checked_before_sanitizing:
  "(isValid (validate input) \<longrightarrow>
      length input \<le> 10000 \<and> length (sanitized (validate input)) \<le> 60000)
   \<and> length (replicate 10000 (0x27 :: code_unit)) \<le> 10000
   \<and> isValid (validate (replicate 10000 0x27))
   \<and> length (sanitized (validate (replicate 10000 0x27))) = 60000
   \<and> (\<not> isProcessing st \<and> isValid (validate (inputText st))
        \<and> subtle_generateKey provider = Some key \<longrightarrow>
      Encrypt key (generateIV (getRandomValues provider))
        (TextEncoder_encode (sanitized (validate (inputText st))))
        \<in> set (effects (processEncryption provider st)))"
proof (intro conjI impI)
  assume v: "isValid (validate input)"
  then show "length input \<le> 10000" by (simp add: validate_isValid)
  then have "6 * length input \<le> 60000" by simp
  then show "length (sanitized (validate input)) \<le> 60000"
    using length_sanitize [of input] by simp
next
  show "length (replicate 10000 (0x27 :: code_unit)) \<le> 10000" by simp
  show "isValid (validate (replicate 10000 0x27))" by (rule apostrophes)
  show "length (sanitized (validate (replicate 10000 0x27))) = 60000"
    by (simp add: apostrophes)
next
  assume a: "\<not> isProcessing st \<and> isValid (validate (inputText st))
        \<and> subtle_generateKey provider = Some key"
  let ?iv = "generateIV (getRandomValues provider)"
  let ?data = "TextEncoder_encode (sanitize (inputText st))"
  show "Encrypt key ?iv (TextEncoder_encode (sanitized (validate (inputText st))))
        \<in> set (effects (processEncryption provider st))"
  proof (cases "subtle_encrypt provider key ?iv ?data")
    case None
    with a show ?thesis by (simp add: run_encrypt_failed)
  next
    case (Some encryptedData)
    show ?thesis
    proof (cases "12 + length encryptedData \<le> pipeline_bytes + extra_arguments st")
      case True
      with a Some show ?thesis by (simp add: run_succeeded)
    next
      case False
      with a Some show ?thesis by (simp add: run_format_failed)
    qed
  qed
qed

theorem limit_checked_before_sanitizing_witness:
  "length (sanitized (validate (replicate 10000 0x27))) \<le> 60000
   \<and> Encrypt 1 (generateIV (getRandomValues stub_provider))
        (TextEncoder_encode (sanitized (validate (replicate 10000 0x27))))
        \<in> set (effects (processEncryption stub_provider (loaded (replicate 10000 0x27))))"
  using limit_checked_before_sanitizing
    [of "replicate 10000 0x27" "loaded (replicate 10000 0x27)" stub_provider 1]
  by (simp add: apostrophes)

section \<open>Single flight\<close>

lemma flight_fields [simp]:
  "isProcessing (validateInput st) = isProcessing st"
  "suspended (validateInput st) = suspended st"
  "isProcessing (clearMessages st) = isProcessing st"
  "suspended (clearMessages st) = suspended st"
  "isProcessing (clearAll st) = isProcessing st"
  "suspended (clearAll st) = suspended st"
  by (simp_all add: validateInput_def clearMessages_def clearAll_def showSuccess_def
      clearSensitiveData_def Let_def)

lemma remove_nth_single [simp]: "remove_nth 0 [a] = []"
  by (simp add: remove_nth_def)

lemma single_flight_Invoke: "single_flight st \<Longrightarrow> single_flight (step Invoke st)"
proof (cases "isProcessing st")
  case True
  assume "single_flight st"
  with True show ?thesis by (simp add: begin_rejected)
next
  case idle: False
  assume sf: "single_flight st"
  with idle have none: "suspended st = []" by (simp add: single_flight_def)
  show ?thesis
  proof (cases "isValid (validate (inputText st))")
    case True
    with idle none show ?thesis by (simp add: begin_valid single_flight_def)
  next
    case False
    with idle none show ?thesis by (simp add: begin_invalid single_flight_def)
  qed
qed

lemma single_flight_settled:
  assumes "single_flight st" and "i < length (suspended st)"
  shows "i = 0" and "suspended st = [suspended st ! 0]" and "isProcessing st"
proof -
  from assms have l: "length (suspended st) = 1" by (simp add: single_flight_def)
  with assms(2) show "i = 0" by simp
  from l show "suspended st = [suspended st ! 0]"
    by (cases "suspended st") simp_all
  from assms show "isProcessing st" by (auto simp: single_flight_def)
qed

lemma single_flight_KeySettled:
  assumes "single_flight st"
  shows "single_flight (step (KeySettled i settled random) st)"
proof (cases "i < length (suspended st)")
  case False
  with assms show ?thesis by simp
next
  case True
  note s = single_flight_settled [OF assms True]
  show ?thesis
  proof (cases "suspended st ! 0")
    case (AwaitEncrypt key iv data)
    with assms True s(1) show ?thesis by simp
  next
    case (AwaitKey validation)
    have r: "remove_nth i (suspended st) = []"
      using s(1) s(2) by (metis remove_nth_single)
    show ?thesis
    proof (cases settled)
      case None
      with True s(1) AwaitKey r show ?thesis
        by (simp add: key_rejected single_flight_def)
    next
      case (Some key)
      with True s(1) s(3) AwaitKey r show ?thesis
        by (simp add: key_resolved single_flight_def)
    qed
  qed
qed

lemma single_flight_EncryptSettled:
  assumes "single_flight st"
  shows "single_flight (step (EncryptSettled i settled) st)"
proof (cases "i < length (suspended st)")
  case False
  with assms show ?thesis by simp
next
  case True
  note s = single_flight_settled [OF assms True]
  show ?thesis
  proof (cases "suspended st ! 0")
    case (AwaitKey validation)
    with assms True s(1) show ?thesis by simp
  next
    case (AwaitEncrypt key iv data)
    have r: "remove_nth i (suspended st) = []"
      using s(1) s(2) by (metis remove_nth_single)
    show ?thesis
    proof (cases settled)
      case None
      with True s(1) AwaitEncrypt r show ?thesis
        by (simp add: encrypted_rejected single_flight_def)
    next
      case (Some encryptedData)
      let ?st = "st\<lparr>suspended := []\<rparr>"
      show ?thesis
      proof (cases "length iv + length encryptedData \<le> pipeline_bytes + extra_arguments ?st")
        case within: True
        with True s(1) AwaitEncrypt r Some show ?thesis
          by (simp add: encrypted_resolved single_flight_def)
      next
        case beyond: False
        with True s(1) AwaitEncrypt r Some show ?thesis
          by (simp add: encrypted_overflow single_flight_def)
      qed
    qed
  qed
qed

lemma single_flight_step: "single_flight st \<Longrightarrow> single_flight (step e st)"
proof (cases e)
  case Invoke
  assume "single_flight st"
  with Invoke show ?thesis by (simp only: single_flight_Invoke)
next
  case (KeySettled i settled random)
  assume "single_flight st"
  with KeySettled show ?thesis by (simp only: single_flight_KeySettled)
next
  case (EncryptSettled i settled)
  assume "single_flight st"
  with EncryptSettled show ?thesis by (simp only: single_flight_EncryptSettled)
next
  case TimerFired
  assume "single_flight st"
  with TimerFired show ?thesis by (simp add: single_flight_def)
next
  case (InputEdited s)
  assume "single_flight st"
  with InputEdited show ?thesis by (simp add: single_flight_def)
next
  case ClearClicked
  assume "single_flight st"
  with ClearClicked show ?thesis by (simp add: single_flight_def)
qed

lemma single_flight_initial: "initial st \<Longrightarrow> single_flight st"
  by (simp add: initial_def single_flight_def)

lemma reachable_single_flight: "reachable st \<Longrightarrow> single_flight st"
  by (induction rule: reachable.induct) (simp_all add: single_flight_initial single_flight_step)


lemma step_Invoke_rejected: "isProcessing st \<Longrightarrow> step Invoke st = st"
  by (simp add: begin_rejected)

lemma step_Invoke_enters:
  assumes "\<not> isProcessing st" and "isValid (validate (inputText st))"
  shows "isProcessing (step Invoke st)"
  using assms by (simp add: begin_valid)

text \<open>
  C6. In every state the page can reach, at most one run is in flight, and the flag is
  set exactly while one is. A call that finds the flag set returns the state as it
  was: the suspended run, the outputs and everything else are untouched. After any
  event that leaves no run in flight the flag is reset, a run that passed the guard
  ends with the flag reset, and a call that finds the flag reset enters processing.
\<close>

theorem single_flight_guard:
  assumes "reachable st"
  shows "length (suspended st) \<le> 1
    \<and> (isProcessing st \<longleftrightarrow> suspended st \<noteq> [])
    \<and> (isProcessing st \<longrightarrow> step Invoke st = st \<and> processEncryption provider st = st)
    \<and> (\<forall>e. suspended (step e st) = [] \<longrightarrow> \<not> isProcessing (step e st))
    \<and> (\<not> isProcessing st \<longrightarrow> \<not> isProcessing (processEncryption provider st))
    \<and> (\<not> isProcessing st \<and> isValid (validate (inputText st)) \<longrightarrow>
         isProcessing (step Invoke st))"
proof -
  have sf: "single_flight st"
    using assms by (rule reachable_single_flight)
  have after: "\<forall>e. suspended (step e st) = [] \<longrightarrow> \<not> isProcessing (step e st)"
  proof (intro allI impI)
    fix e
    assume none: "suspended (step e st) = []"
    have "single_flight (step e st)" using sf by (rule single_flight_step)
    with none show "\<not> isProcessing (step e st)" by (simp add: single_flight_def)
  qed
  show ?thesis
    using sf after run_schedules_release [of st provider]
    by (simp add: single_flight_def step_Invoke_rejected step_Invoke_enters run_rejected
        del: step.simps)
qed

theorem single_flight_guard_witness:
  "reachable (step Invoke (loaded (js ''Hello, World!'')))
   \<and> isProcessing (step Invoke (loaded (js ''Hello, World!'')))
   \<and> length (suspended (step Invoke (loaded (js ''Hello, World!'')))) \<le> 1
   \<and> step Invoke (step Invoke (loaded (js ''Hello, World!'')))
       = step Invoke (loaded (js ''Hello, World!''))"
proof -
  have r: "reachable (step Invoke (loaded (js ''Hello, World!'')))"
    by (intro reachable_step reachable_initial initial_loaded)
  have p: "isProcessing (step Invoke (loaded (js ''Hello, World!'')))"
    by (rule step_Invoke_enters) (simp_all add: hello_world del: js_Cons)
  show ?thesis
    using single_flight_guard [OF r, of stub_provider] r p by blast
qed


section \<open>A run is a sequence of transitions\<close>

lemma suspended_reset: "suspended st = [] \<Longrightarrow> st\<lparr>suspended := []\<rparr> = st"
  by (cases st) simp

lemma run_as_steps:
  assumes "suspended st = []"
  shows "processEncryption provider st =
     (let s1 = step Invoke st;
          s2 = step (KeySettled 0 (subtle_generateKey provider) (getRandomValues provider)) s1
      in case suspended s2 of
           [AwaitEncrypt key iv data] \<Rightarrow>
             step (EncryptSettled 0 (subtle_encrypt provider key iv data)) s2
         | _ \<Rightarrow> s2)"
proof (cases "isProcessing st")
  case True
  with assms show ?thesis by (simp add: run_rejected begin_rejected)
next
  case idle: False
  show ?thesis
  proof (cases "isValid (validate (inputText st))")
    case False
    with idle assms show ?thesis by (simp add: run_invalid begin_invalid)
  next
    case valid: True
    let ?s = "(showProcessing (st\<lparr>isProcessing := True\<rparr>))\<lparr>effects := effects st @ [GenerateKey]\<rparr>"
    have s: "suspended ?s = []" using assms by simp
    have s1: "step Invoke st = ?s\<lparr>suspended := [AwaitKey (validate (inputText st))]\<rparr>"
      using idle valid assms by (simp add: begin_valid)
    show ?thesis
    proof (cases "subtle_generateKey provider")
      case None
      show ?thesis
        unfolding run_key_failed [OF idle valid None] s1 Let_def None
        using assms by (simp add: key_rejected suspended_reset)
    next
      case (Some key)
      let ?iv = "generateIV (getRandomValues provider)"
      let ?data = "TextEncoder_encode (sanitize (inputText st))"
      let ?k = "?s\<lparr>currentKey := Some key,
         effects := effects ?s @ [GetRandomValues 12, Encrypt key ?iv ?data]\<rparr>"
      have k: "suspended ?k = []" using assms by simp
      have s2: "step (KeySettled 0 (Some key) (getRandomValues provider))
                  (?s\<lparr>suspended := [AwaitKey (validate (inputText st))]\<rparr>)
                = ?k\<lparr>suspended := [AwaitEncrypt key ?iv ?data]\<rparr>"
        using assms by (simp add: key_resolved suspended_reset)
      show ?thesis
      proof (cases "subtle_encrypt provider key ?iv ?data")
        case None
        show ?thesis
          unfolding run_encrypt_failed [OF idle valid Some None] s1 Let_def Some s2
          using assms None by (simp add: encrypted_rejected suspended_reset)
      next
        case enc: (Some encryptedData)
        show ?thesis
        proof (cases "12 + length encryptedData \<le> pipeline_bytes + extra_arguments st")
          case within: True
          show ?thesis
            unfolding run_succeeded [OF idle valid Some enc within] s1 Let_def Some s2
            using assms enc within by (simp add: encrypted_resolved suspended_reset)
        next
          case False
          then have beyond: "pipeline_bytes + extra_arguments st < 12 + length encryptedData"
            by simp
          show ?thesis
            unfolding run_format_failed [OF idle valid Some enc beyond] s1 Let_def Some s2
            using assms enc beyond by (simp add: encrypted_overflow suspended_reset)
        qed
      qed
    qed
  qed
qed


lemma reachable_run:
  assumes "reachable st" and "suspended st = []"
  shows "reachable (processEncryption provider st)"
proof -
  let ?s1 = "step Invoke st"
  let ?s2 = "step (KeySettled 0 (subtle_generateKey provider) (getRandomValues provider)) ?s1"
  have r2: "reachable ?s2"
    using assms(1) by (intro reachable_step)
  then have "\<And>e. reachable (step e ?s2)"
    by (rule reachable_step)
  with r2 show ?thesis
    unfolding run_as_steps [OF assms(2)] Let_def
    by (simp split: list.split activation.split del: step.simps)
qed

end
